theory Spec2Isabelle
  imports Complex_Main "HOL-Library.Signed_Division"
begin

section \<open>Kinetic sculpture: mesh generation and light animation\<close>

text \<open>
  A shallow embedding of \<^verbatim>\<open>multiple_lights.cpp\<close>: the mesh generator
  \<^verbatim>\<open>makeSculpture\<close> (sample loop and index loop), the aspect-ratio expression of
  the projection matrix and the point-light animation loop of \<^verbatim>\<open>main\<close>.

  Conventions of the model.
  \<^item> \<^verbatim>\<open>int\<close> values are HOL integers in \<open>[-2^31, 2^31)\<close>. The products and the
    difference that \<^verbatim>\<open>makeSculpture\<close> computes from its arguments wrap around
    modulo \<open>2^32\<close>, as the compiled program does. Inside the loops and
    \<^verbatim>\<open>toIndex\<close> the arithmetic is written without wrap-around: a loop counter
    stays below its bound, and the index expressions stay in range whenever the size
    \<open>rowRings * colSegments * 8\<close> of the vertex buffer does (lemma \<open>toIndex_in_int_range\<close>).
    The remainder \<^verbatim>\<open>%\<close> truncates towards zero (\<open>smod\<close>) and traps on a zero divisor.
  \<^item> \<^verbatim>\<open>unsigned int\<close> values are integers in \<open>[0, 2^32)\<close>; the conversion from
    \<^verbatim>\<open>int\<close> reduces modulo \<open>2^32\<close>.
  \<^item> \<^verbatim>\<open>float\<close> values are real numbers. The surface and light formulas are
    modelled in exact real arithmetic. Where a property depends on rounding, the
    binary32 value is modelled as well, with \<open>fl32\<close>, the IEEE 754 rounding to the
    nearest binary32 number: the texture coordinates and the phase argument of a light.
    A float operation whose IEEE 754 result is not a finite number (a division by zero)
    does not stop the program; the model records it as an exceptional result in place
    of the number.
\<close>

subsection \<open>Failures and exceptional float results\<close>

datatype failure =
    LengthError       \<comment> \<open>\<^verbatim>\<open>std::length_error\<close> thrown by \<^verbatim>\<open>vector::reserve\<close>\<close>
  | BadAlloc          \<comment> \<open>\<^verbatim>\<open>std::bad_alloc\<close> thrown by \<^verbatim>\<open>vector::reserve\<close>\<close>
  | IntDivideByZero   \<comment> \<open>integer \<^verbatim>\<open>%\<close> with a zero divisor\<close>

datatype fp_exception =
    DivideByZero      \<comment> \<open>\<open>x / 0\<close> with \<open>x \<noteq> 0\<close>: the result is an infinity\<close>
  | Invalid           \<comment> \<open>\<open>0 / 0\<close>: the result is a NaN\<close>

definition fdiv :: "real \<Rightarrow> real \<Rightarrow> fp_exception + real" where
  "fdiv a b = (if b = 0 then (if a = 0 then Inl Invalid else Inl DivideByZero) else Inr (a / b))"

subsection \<open>Rounding to binary32\<close>

text \<open>
  IEEE 754 rounding to the nearest binary32 number, ties to the even significand:
  a number with binary exponent \<open>e\<close> (at least \<open>-126\<close>, below which the numbers are
  subnormal) is rounded to a multiple of \<open>2^(e - 23)\<close>. Conversion from
  \<^verbatim>\<open>int\<close>, multiplication, addition and division of floats return the rounded
  exact result. Overflow to an infinity (magnitudes from \<open>2^128\<close>) is not modelled; no
  value below comes near it.
\<close>

definition round_even :: "real \<Rightarrow> int" where
  "round_even y =
     (let f = \<lfloor>y\<rfloor>; d = y - of_int f
      in if d < 1 / 2 then f else if 1 / 2 < d then f + 1 else if even f then f else f + 1)"

definition exponent32 :: "real \<Rightarrow> int" where
  "exponent32 x = max \<lfloor>log 2 \<bar>x\<bar>\<rfloor> (- 126)"

definition fl32 :: "real \<Rightarrow> real" where
  "fl32 x =
     (if x = 0 then 0
      else of_int (round_even (x / 2 powi (exponent32 x - 23))) * 2 powi (exponent32 x - 23))"

text \<open>The conversion \<^verbatim>\<open>(float)n\<close> of an \<^verbatim>\<open>int\<close>, and the float division.\<close>

definition float_of_int :: "int \<Rightarrow> real" where
  "float_of_int n = fl32 (real_of_int n)"

definition fdiv32 :: "real \<Rightarrow> real \<Rightarrow> fp_exception + real" where
  "fdiv32 a b = (case fdiv a b of Inl e \<Rightarrow> Inl e | Inr q \<Rightarrow> Inr (fl32 q))"

subsection \<open>Index arithmetic\<close>

text \<open>
  Two's complement wrap-around of a 32-bit \<^verbatim>\<open>int\<close>, and the multiplication and
  subtraction that wrap.
\<close>

definition wrap32 :: "int \<Rightarrow> int" where
  "wrap32 k = (k + 2 ^ 31) mod 2 ^ 32 - 2 ^ 31"

definition mul32 :: "int \<Rightarrow> int \<Rightarrow> int" where
  "mul32 a b = wrap32 (a * b)"

definition sub32 :: "int \<Rightarrow> int \<Rightarrow> int" where
  "sub32 a b = wrap32 (a - b)"

text \<open>
  \<^verbatim>\<open>v.reserve(n)\<close> with an \<^verbatim>\<open>int\<close> argument (lines 65 and 66): a negative
  \<open>n\<close> converts to a \<^verbatim>\<open>size_t\<close> above \<^verbatim>\<open>max_size()\<close>, and
  \<^verbatim>\<open>reserve\<close> throws \<^verbatim>\<open>std::length_error\<close>. Otherwise it allocates room for
  \<open>n\<close> elements of four bytes, and throws \<^verbatim>\<open>std::bad_alloc\<close> when the allocator
  has no such block. Whether it has is a fact of the machine, not of the program: the
  model takes it as a parameter \<open>can_alloc\<close>.
\<close>

definition reserve :: "(int \<Rightarrow> bool) \<Rightarrow> int \<Rightarrow> failure + unit" where
  "reserve can_alloc n =
     (if n < 0 then Inl LengthError else if can_alloc n then Inr () else Inl BadAlloc)"

definition to_uint :: "int \<Rightarrow> int" where
  "to_uint k = k mod 2 ^ 32"

definition c_rem :: "int \<Rightarrow> int \<Rightarrow> failure + int" where
  "c_rem a b = (if b = 0 then Inl IntDivideByZero else Inr (a smod b))"

text \<open>
  The lambda \<^verbatim>\<open>toIndex\<close> (lines 68 to 71), which captures \<^verbatim>\<open>colSegments\<close>:
  \<^verbatim>\<open>int C = (c + colSegments) % colSegments; return r * colSegments + C;\<close>
\<close>

definition toIndex :: "int \<Rightarrow> int \<Rightarrow> int \<Rightarrow> failure + int" where
  "toIndex colSegments r c =
     (case c_rem (c + colSegments) colSegments of
        Inl e \<Rightarrow> Inl e
      | Inr C \<Rightarrow> Inr (r * colSegments + C))"

text \<open>
  The body of the inner index loop (lines 106 to 110): the four corners of the quad, converted to
  \<^verbatim>\<open>unsigned int\<close>, and the six indices \<^verbatim>\<open>{ i0,i2,i1, i1,i2,i3 }\<close> it appends.
\<close>

definition quadIndices :: "int \<Rightarrow> int \<Rightarrow> int \<Rightarrow> failure + int list" where
  "quadIndices colSegments r c =
     (case toIndex colSegments r c of Inl e \<Rightarrow> Inl e | Inr i0 \<Rightarrow>
      case toIndex colSegments r (c + 1) of Inl e \<Rightarrow> Inl e | Inr i1 \<Rightarrow>
      case toIndex colSegments (r + 1) c of Inl e \<Rightarrow> Inl e | Inr i2 \<Rightarrow>
      case toIndex colSegments (r + 1) (c + 1) of Inl e \<Rightarrow> Inl e | Inr i3 \<Rightarrow>
        Inr [to_uint i0, to_uint i2, to_uint i1, to_uint i1, to_uint i2, to_uint i3])"

text \<open>
  Line 105: \<^verbatim>\<open>for (int c = 0; c < colSegments; ++c) { ... idx.insert(idx.end(), ...); }\<close>
\<close>

function indexCols :: "int \<Rightarrow> int \<Rightarrow> int \<Rightarrow> int list \<Rightarrow> failure + int list" where
  "indexCols colSegments r c idx =
     (if c < colSegments then
        (case quadIndices colSegments r c of
           Inl e \<Rightarrow> Inl e
         | Inr q \<Rightarrow> indexCols colSegments r (c + 1) (idx @ q))
      else Inr idx)"
  by pat_completeness auto
termination
  by (relation "measure (\<lambda>(colSegments, r, c, idx). nat (colSegments - c))") auto

declare indexCols.simps [simp del]

text \<open>
  Line 104: \<^verbatim>\<open>for (int r = 0; r < rowRings - 1; ++r) { for (int c = 0; ...) ... }\<close>
\<close>

function indexRows :: "int \<Rightarrow> int \<Rightarrow> int \<Rightarrow> int list \<Rightarrow> failure + int list" where
  "indexRows rowRings colSegments r idx =
     (if r < sub32 rowRings 1 then
        (case indexCols colSegments r 0 idx of
           Inl e \<Rightarrow> Inl e
         | Inr idx' \<Rightarrow> indexRows rowRings colSegments (r + 1) idx')
      else Inr idx)"
  by pat_completeness auto
termination
  by (relation "measure (\<lambda>(rowRings, colSegments, r, idx). nat (sub32 rowRings 1 - r))") auto

declare indexRows.simps [simp del]

subsection \<open>Vectors (GLM)\<close>

text \<open>
  \<^verbatim>\<open>glm::vec3\<close> and the two GLM functions that \<^verbatim>\<open>makeSculpture\<close> calls, as
  the library defines them. \<^verbatim>\<open>glm::cross(a, b)\<close> is
  \<^verbatim>\<open>(a.y*b.z - b.y*a.z, a.z*b.x - b.z*a.x, a.x*b.y - b.x*a.y)\<close>, and
  \<^verbatim>\<open>glm::normalize(a)\<close> is \<^verbatim>\<open>a * inversesqrt(dot(a, a))\<close> with
  \<^verbatim>\<open>inversesqrt(s) = 1 / sqrt(s)\<close>: it has no test for a zero vector.
  \<^verbatim>\<open>glm::length(a)\<close> is \<^verbatim>\<open>sqrt(dot(a, a))\<close>; the program does not call it,
  the properties below use it to say that a vector has unit length.
\<close>

record vec3 =
  vx :: real
  vy :: real
  vz :: real

definition glm_cross :: "vec3 \<Rightarrow> vec3 \<Rightarrow> vec3" where
  "glm_cross a b =
     \<lparr>vx = vy a * vz b - vy b * vz a,
      vy = vz a * vx b - vz b * vx a,
      vz = vx a * vy b - vx b * vy a\<rparr>"

definition glm_dot :: "vec3 \<Rightarrow> vec3 \<Rightarrow> real" where
  "glm_dot a b = vx a * vx b + vy a * vy b + vz a * vz b"

definition glm_length :: "vec3 \<Rightarrow> real" where
  "glm_length a = sqrt (glm_dot a a)"

definition glm_inversesqrt :: "real \<Rightarrow> fp_exception + real" where
  "glm_inversesqrt s = fdiv 1 (sqrt s)"

definition glm_normalize :: "vec3 \<Rightarrow> fp_exception + vec3" where
  "glm_normalize a =
     (case glm_inversesqrt (glm_dot a a) of
        Inl e \<Rightarrow> Inl e
      | Inr k \<Rightarrow> Inr \<lparr>vx = vx a * k, vy = vy a * k, vz = vz a * k\<rparr>)"

subsection \<open>Surface samples\<close>

text \<open>
  One sample is the eight floats that the inner loop appends to \<^verbatim>\<open>v\<close>:
  \<^verbatim>\<open>{ x, y, z,  nrm.x, nrm.y, nrm.z,  uParam, vParam }\<close>.
\<close>

record sample =
  position :: vec3
  normal :: vec3
  texcoord_u :: real
  texcoord_v :: real

text \<open>
  Lines 79 to 90, the radius of the sample at \<open>(uParam, vParam)\<close>: the superellipse
  \<^verbatim>\<open>r0\<close> scaled by the travelling wave (\<^verbatim>\<open>a = 1.0f, b = 0.5f, n = 2.5f\<close>).
  \<^verbatim>\<open>powf\<close> of a base \<open>0\<close> and a positive exponent is \<open>0\<close>, as \<open>powr\<close> is.
\<close>

definition sampleRadius :: "real \<Rightarrow> real \<Rightarrow> real \<Rightarrow> real" where
  "sampleRadius g_time uParam vParam =
     (let theta = uParam * (2 * pi);
          a = 1; b = 1 / 2; n = 5 / 2;
          cx = \<bar>cos theta\<bar> powr (2 / n) * a * (if cos theta \<ge> 0 then 1 else - 1);
          cz = \<bar>sin theta\<bar> powr (2 / n) * b * (if sin theta \<ge> 0 then 1 else - 1);
          r0 = sqrt (cx * cx + cz * cz);
          wave = 1 / 4 * sin (6 * uParam * (2 * pi) - 4 * vParam * (2 * pi) + g_time * (3 / 2))
      in r0 * (1 + wave))"

text \<open>
  Lines 97 to 99:
  \<^verbatim>\<open>glm::vec3 tTheta(-radius * sin(theta), 0.0f, radius * cos(theta));\<close>
  \<^verbatim>\<open>glm::vec3 tY(0.0f, 1.0f, 0.0f);\<close>
  \<^verbatim>\<open>glm::vec3 nrm = glm::normalize(glm::cross(tTheta, tY));\<close>
\<close>

definition sampleNormal :: "real \<Rightarrow> real \<Rightarrow> fp_exception + vec3" where
  "sampleNormal radius theta =
     (let tTheta = \<lparr>vx = - radius * sin theta, vy = 0, vz = radius * cos theta\<rparr>;
          tY = \<lparr>vx = 0, vy = 1, vz = 0\<rparr>
      in glm_normalize (glm_cross tTheta tY))"

text \<open>
  The sample of ring \<open>r\<close> and segment \<open>c\<close> (lines 75 to 101, the bodies of the two
  sample loops). A sample with a component that is not a finite number is represented
  by the first exception that produced such a component.
\<close>

definition sculptureSample :: "int \<Rightarrow> int \<Rightarrow> real \<Rightarrow> int \<Rightarrow> int \<Rightarrow> fp_exception + sample" where
  "sculptureSample rowRings colSegments g_time r c =
     (case fdiv (real_of_int r) (real_of_int (rowRings - 1)) of Inl e \<Rightarrow> Inl e | Inr vParam \<Rightarrow>
      let y = (vParam - 1 / 2) * 3 in
      case fdiv (real_of_int c) (real_of_int colSegments) of Inl e \<Rightarrow> Inl e | Inr uParam \<Rightarrow>
      let theta = uParam * (2 * pi);
          radius = sampleRadius g_time uParam vParam;
          x = radius * cos theta;
          z = radius * sin theta
      in case sampleNormal radius theta of Inl e \<Rightarrow> Inl e | Inr nrm \<Rightarrow>
           Inr \<lparr>position = \<lparr>vx = x, vy = y, vz = z\<rparr>, normal = nrm,
                texcoord_u = uParam, texcoord_v = vParam\<rparr>)"

text \<open>
  The binary32 values of the two texture coordinates that line 101 stores:
  \<^verbatim>\<open>float uParam = (float)c / colSegments;\<close> (line 78) and
  \<^verbatim>\<open>float vParam = (float)r / (rowRings - 1);\<close> (line 75). Each is one division of
  two converted integers.
\<close>

definition uParam32 :: "int \<Rightarrow> int \<Rightarrow> fp_exception + real" where
  "uParam32 colSegments c = fdiv32 (float_of_int c) (float_of_int colSegments)"

definition vParam32 :: "int \<Rightarrow> int \<Rightarrow> fp_exception + real" where
  "vParam32 rowRings r = fdiv32 (float_of_int r) (float_of_int (rowRings - 1))"

text \<open>
  Line 77: \<^verbatim>\<open>for (int c = 0; c < colSegments; ++c) { ... v.insert(v.end(), ...); }\<close>
\<close>

function vertexCols ::
  "int \<Rightarrow> int \<Rightarrow> real \<Rightarrow> int \<Rightarrow> int \<Rightarrow> (fp_exception + sample) list \<Rightarrow> (fp_exception + sample) list"
where
  "vertexCols rowRings colSegments g_time r c v =
     (if c < colSegments then
        vertexCols rowRings colSegments g_time r (c + 1)
          (v @ [sculptureSample rowRings colSegments g_time r c])
      else v)"
  by pat_completeness auto
termination
  by (relation "measure (\<lambda>(rowRings, colSegments, g_time, r, c, v). nat (colSegments - c))") auto

declare vertexCols.simps [simp del]

text \<open>
  Line 74: \<^verbatim>\<open>for (int r = 0; r < rowRings; ++r) { ... for (int c = 0; ...) ... }\<close>
\<close>

function vertexRows ::
  "int \<Rightarrow> int \<Rightarrow> real \<Rightarrow> int \<Rightarrow> (fp_exception + sample) list \<Rightarrow> (fp_exception + sample) list"
where
  "vertexRows rowRings colSegments g_time r v =
     (if r < rowRings then
        vertexRows rowRings colSegments g_time (r + 1)
          (vertexCols rowRings colSegments g_time r 0 v)
      else v)"
  by pat_completeness auto
termination
  by (relation "measure (\<lambda>(rowRings, colSegments, g_time, r, v). nat (rowRings - r))") auto

declare vertexRows.simps [simp del]

subsection \<open>The mesh generator\<close>

text \<open>
  What \<^verbatim>\<open>makeSculpture\<close> hands to the GPU: the contents of \<^verbatim>\<open>v\<close> and
  \<^verbatim>\<open>idx\<close>, and \<^verbatim>\<open>m.indexCount = (GLsizei)idx.size()\<close>. The buffer handles
  are not modelled. The function reads the global \<^verbatim>\<open>g_time\<close>.
  The two sizes \<^verbatim>\<open>rowRings * colSegments * 8\<close> and
  \<^verbatim>\<open>(rowRings - 1) * colSegments * 6\<close> are \<^verbatim>\<open>int\<close> expressions evaluated from
  left to right, each operation wrapping. When neither size has wrapped, the loops
  insert exactly as many elements as were reserved, and the two \<^verbatim>\<open>reserve\<close> calls
  are the only allocations.
\<close>

record mesh_buffers =
  vertexData :: "(fp_exception + sample) list"
  indexData :: "int list"
  indexCount :: int

definition makeSculpture ::
  "(int \<Rightarrow> bool) \<Rightarrow> int \<Rightarrow> int \<Rightarrow> real \<Rightarrow> failure + mesh_buffers"
where
  "makeSculpture can_alloc rowRings colSegments g_time =
     (case reserve can_alloc (mul32 (mul32 rowRings colSegments) 8) of
        Inl e \<Rightarrow> Inl e | Inr _ \<Rightarrow>
      case reserve can_alloc (mul32 (mul32 (sub32 rowRings 1) colSegments) 6) of
        Inl e \<Rightarrow> Inl e | Inr _ \<Rightarrow>
      let v = vertexRows rowRings colSegments g_time 0 [] in
      case indexRows rowRings colSegments 0 [] of
        Inl e \<Rightarrow> Inl e
      | Inr idx \<Rightarrow>
          Inr \<lparr>vertexData = v, indexData = idx, indexCount = wrap32 (int (length idx))\<rparr>)"

subsection \<open>The render loop: aspect ratio and light animation\<close>

text \<open>
  Line 215, the aspect argument of \<^verbatim>\<open>glm::perspective\<close>, from the framebuffer size
  \<open>w\<close>, \<open>h\<close>:
  \<^verbatim>\<open>w > 0 ? (float)w / h : 1.0f\<close>.
\<close>

definition aspectRatio :: "int \<Rightarrow> int \<Rightarrow> fp_exception + real" where
  "aspectRatio w h = (if w > 0 then fdiv (real_of_int w) (real_of_int h) else Inr 1)"

text \<open>Lines 164 to 169, the initial contents of the global array \<^verbatim>\<open>pointLights[4]\<close>.\<close>

definition pointLights :: "vec3 list" where
  "pointLights =
     [\<lparr>vx = 15 / 10, vy = 12 / 10, vz = 15 / 10\<rparr>,
      \<lparr>vx = - (18 / 10), vy = 1, vz = 12 / 10\<rparr>,
      \<lparr>vx = 16 / 10, vy = 15 / 10, vz = - (16 / 10)\<rparr>,
      \<lparr>vx = - (14 / 10), vy = 14 / 10, vz = - (13 / 10)\<rparr>]"

text \<open>
  Lines 220 to 223, the body of the animation loop for light \<open>i\<close>:
  \<^verbatim>\<open>float phase = i * glm::half_pi<float>();\<close> and three assignments to the fields
  of \<^verbatim>\<open>pointLights[i]\<close>, in the order \<open>x\<close>, \<open>z\<close>, \<open>y\<close>.
\<close>

definition phase :: "nat \<Rightarrow> real" where
  "phase i = real i * (pi / 2)"

definition animateLight :: "real \<Rightarrow> nat \<Rightarrow> vec3 \<Rightarrow> vec3" where
  "animateLight g_time i p =
     (let p1 = p\<lparr>vx := 18 / 10 * sin (g_time * (7 / 10) + phase i)\<rparr>;
          p2 = p1\<lparr>vz := 18 / 10 * cos (g_time * (7 / 10) + phase i)\<rparr>
      in p2\<lparr>vy := 1 + 4 / 10 * sin (g_time * (13 / 10) + real i)\<rparr>)"

text \<open>
  The binary32 value of the argument \<^verbatim>\<open>g_time * 0.7f + phase\<close> of
  \<^verbatim>\<open>sin\<close> and \<^verbatim>\<open>cos\<close> in lines 221 and 222, for a binary32 \<open>g_time\<close>.
  The literal \<^verbatim>\<open>0.7f\<close> is the binary32 number nearest to \<open>0.7\<close>;
  \<^verbatim>\<open>glm::half_pi<float>()\<close> is the literal
  \<^verbatim>\<open>1.57079632679489661923132169163975144\<close> converted to \<^verbatim>\<open>float\<close>. The product,
  the phase and the sum are rounded one by one.
\<close>

definition float_0_7 :: real where
  "float_0_7 = fl32 (7 / 10)"

definition half_pi_f :: real where
  "half_pi_f = fl32 (157079632679489661923132169163975144 / 10 ^ 35)"

definition phase32 :: "nat \<Rightarrow> real" where
  "phase32 i = fl32 (float_of_int (int i) * half_pi_f)"

definition lightArg32 :: "real \<Rightarrow> nat \<Rightarrow> real" where
  "lightArg32 g_time i = fl32 (fl32 (g_time * float_0_7) + phase32 i)"

text \<open>Line 219: \<^verbatim>\<open>for (int i = 0; i < 4; ++i) { ... }\<close>\<close>

function animateLights :: "real \<Rightarrow> nat \<Rightarrow> vec3 list \<Rightarrow> vec3 list" where
  "animateLights g_time i lights =
     (if i < 4 then
        animateLights g_time (i + 1) (lights[i := animateLight g_time i (lights ! i)])
      else lights)"
  by pat_completeness auto
termination
  by (relation "measure (\<lambda>(g_time, i, lights). 4 - i)") auto

declare animateLights.simps [simp del]

section \<open>Properties\<close>

subsection \<open>Rounding to binary32\<close>

lemma round_even_error: "\<bar>of_int (round_even y) - y\<bar> \<le> 1 / 2"
proof -
  have "of_int \<lfloor>y\<rfloor> \<le> y" "y < of_int \<lfloor>y\<rfloor> + 1" by linarith+
  then show ?thesis
    by (auto simp add: round_even_def Let_def)
qed

lemma round_even_of_int: "round_even (of_int m) = m"
  by (simp add: round_even_def)

lemma round_even_nonneg: "0 \<le> y \<Longrightarrow> 0 \<le> round_even y"
  by (auto simp add: round_even_def Let_def)

lemma exponent32_eq:
  assumes "2 powi e \<le> \<bar>x\<bar>" "\<bar>x\<bar> < 2 powi (e + 1)" "- 126 \<le> e"
  shows "exponent32 x = e"
proof -
  have pos: "0 < \<bar>x\<bar>"
    using assms(1) by (smt (verit) zero_less_power_int)
  have a: "(2::real) powr of_int e = 2 powi e"
    by (simp add: powr_real_of_int')
  have b: "(2::real) powr (of_int e + 1) = 2 powi (e + 1)"
    using powr_real_of_int' [of 2 "e + 1"] by simp
  have "(2::real) powr of_int e \<le> \<bar>x\<bar>" "\<bar>x\<bar> < (2::real) powr (of_int e + 1)"
    using assms by (simp_all only: a b)
  then have "\<lfloor>log 2 \<bar>x\<bar>\<rfloor> = e"
    using pos by (simp add: floor_log_eq_powr_iff)
  with assms(3) show ?thesis
    by (simp add: exponent32_def)
qed

lemma fl32_eval:
  assumes "2 powi e \<le> \<bar>x\<bar>" "\<bar>x\<bar> < 2 powi (e + 1)" "- 126 \<le> e"
  shows "fl32 x = of_int (round_even (x / 2 powi (e - 23))) * 2 powi (e - 23)"
proof -
  have "x \<noteq> 0"
    using assms(1) by (smt (verit) zero_less_power_int)
  then show ?thesis
    by (simp add: fl32_def exponent32_eq [OF assms])
qed

lemma fl32_error:
  "\<bar>fl32 x - x\<bar> \<le> 2 powi (exponent32 x - 23) / 2"
proof (cases "x = 0")
  case True
  then show ?thesis by (simp add: fl32_def)
next
  case False
  define u :: real where "u = 2 powi (exponent32 x - 23)"
  define k where "k = round_even (x / u)"
  have u: "0 < u" by (simp add: u_def)
  have "\<bar>of_int k - x / u\<bar> \<le> 1 / 2"
    unfolding k_def by (rule round_even_error)
  then have A: "\<bar>of_int k - x / u\<bar> * u \<le> 1 / 2 * u"
    using u by (intro mult_right_mono) simp_all
  have "of_int k * u - x = (of_int k - x / u) * u"
    using u by (simp add: left_diff_distrib)
  then have B: "\<bar>of_int k * u - x\<bar> = \<bar>of_int k - x / u\<bar> * u"
    using u by (simp add: abs_mult)
  from A B have C: "\<bar>of_int k * u - x\<bar> \<le> u / 2"
    by linarith
  have "fl32 x = of_int k * u"
    using False by (simp add: fl32_def u_def k_def)
  with C have "\<bar>fl32 x - x\<bar> \<le> u / 2"
    by (simp only:)
  then show ?thesis
    by (simp only: u_def)
qed

lemma fl32_nonneg:
  assumes "0 \<le> x"
  shows "0 \<le> fl32 x"
proof -
  have "0 \<le> x / 2 powi (exponent32 x - 23)"
    using assms by simp
  then have "0 \<le> round_even (x / 2 powi (exponent32 x - 23))"
    by (rule round_even_nonneg)
  then show ?thesis
    by (simp add: fl32_def)
qed

lemma exponent32_below_one:
  assumes "0 < x" "x < 1"
  shows "exponent32 x \<le> - 1"
proof -
  have "log 2 \<bar>x\<bar> < 0"
    using assms by simp
  then have "\<lfloor>log 2 \<bar>x\<bar>\<rfloor> \<le> - 1"
    by linarith
  then show ?thesis
    by (simp add: exponent32_def)
qed

lemma fl32_below_one:
  assumes "0 \<le> x" "x \<le> 1 - 1 / 2 ^ 24"
  shows "fl32 x < 1"
proof (cases "x = 0")
  case True
  then show ?thesis by (simp add: fl32_def)
next
  case False
  with assms have "0 < x" "x < 1" by simp_all
  then have "exponent32 x - 23 \<le> - 24"
    using exponent32_below_one [of x] by simp
  then have "(2::real) powi (exponent32 x - 23) \<le> 2 powi (- 24)"
    by (intro power_int_increasing) simp_all
  then have "(2::real) powi (exponent32 x - 23) / 2 \<le> 1 / 2 ^ 25"
    by simp
  with fl32_error [of x] have "fl32 x \<le> x + 1 / 2 ^ 25"
    by linarith
  with assms(2) show ?thesis by simp
qed

lemma fl32_one: "fl32 1 = 1"
  by (subst fl32_eval [of 0]) (simp_all add: round_even_def)

lemma fl32_exact:
  assumes "x / 2 powi (exponent32 x - 23) = of_int m"
  shows "fl32 x = x"
proof (cases "x = 0")
  case True
  then show ?thesis by (simp add: fl32_def)
next
  case False
  have "of_int (round_even (x / 2 powi (exponent32 x - 23))) * 2 powi (exponent32 x - 23)
          = x / 2 powi (exponent32 x - 23) * 2 powi (exponent32 x - 23)"
    by (simp only: assms round_even_of_int)
  also have "\<dots> = x" by simp
  finally show ?thesis
    using False by (simp add: fl32_def)
qed

lemma float_of_int_exact:
  assumes "0 \<le> n" "n \<le> 2 ^ 24"
  shows "float_of_int n = real_of_int n"
proof (cases "n = 0")
  case True
  then show ?thesis by (simp add: float_of_int_def fl32_def)
next
  case False
  with assms have n: "1 \<le> n" by simp
  define x where "x = real_of_int n"
  have x: "1 \<le> x" "x \<le> 2 ^ 24"
    using n assms(2) unfolding x_def by (simp, metis of_int_le_iff of_int_numeral of_int_power)
  define e where "e = \<lfloor>log 2 \<bar>x\<bar>\<rfloor>"
  have "0 \<le> log 2 \<bar>x\<bar>" using x by simp
  then have e0: "0 \<le> e" by (simp add: e_def)
  have ex: "exponent32 x = e"
    using e0 by (simp add: exponent32_def e_def)
  have "2 powr of_int e \<le> \<bar>x\<bar>"
    using floor_log_eq_powr_iff [of "\<bar>x\<bar>" 2 e] x by (simp add: e_def)
  then have lower: "2 powi e \<le> x"
    using x by (simp add: powr_real_of_int')
  have e24: "e \<le> 24"
  proof (rule ccontr)
    assume "\<not> e \<le> 24"
    then have "(2::real) powi 25 \<le> 2 powi e"
      by (intro power_int_increasing) simp_all
    with lower x show False by simp
  qed
  have "\<exists>m. x / 2 powi (e - 23) = of_int m"
  proof (cases "e \<le> 23")
    case True
    have "x / 2 powi (e - 23) = x * 2 powi (23 - e)"
      by (simp add: power_int_diff field_simps)
    also have "\<dots> = x * 2 ^ nat (23 - e)"
      using True by (simp add: power_int_def)
    also have "\<dots> = of_int (n * 2 ^ nat (23 - e))"
      by (simp add: x_def)
    finally show ?thesis by blast
  next
    case False
    with e24 have e: "e = 24" by simp
    from lower have "2 ^ 24 \<le> x" by (simp add: e)
    with x have "x = 2 ^ 24" by simp
    then have "x / 2 powi (e - 23) = of_int (2 ^ 23)"
      by (simp add: e)
    then show ?thesis by blast
  qed
  then obtain m where "x / 2 powi (exponent32 x - 23) = of_int m"
    unfolding ex by blast
  from fl32_exact [OF this] show ?thesis
    by (simp add: float_of_int_def x_def)
qed

text \<open>
  Beyond \<open>2^24\<close> the conversion rounds: \<open>16777217\<close> becomes \<open>16777216\<close>, and with
  \<open>16777217\<close> segments the last segment has \<open>uParam = 1\<close>.
\<close>

lemma float_of_int_rounds: "float_of_int 16777217 = 16777216"
  unfolding float_of_int_def by (subst fl32_eval [of 24]) (simp_all add: round_even_def)

lemma uParam32_rounds_to_one: "uParam32 16777217 16777216 = Inr 1"
proof -
  have "float_of_int 16777216 = 16777216"
    using float_of_int_exact [of 16777216] by simp
  then show ?thesis
    by (simp add: uParam32_def fdiv32_def fdiv_def float_of_int_rounds fl32_one)
qed

lemma quotient_below_one:
  fixes a b :: real
  assumes "a \<le> b - 1" "0 < b"
  shows "a / b \<le> 1 - 1 / b"
proof -
  have "a / b \<le> (b - 1) / b"
    using assms by (intro divide_right_mono) simp_all
  also have "\<dots> = 1 - 1 / b"
    using assms by (simp add: diff_divide_distrib)
  finally show ?thesis .
qed

lemma quotient_rounds_below_one:
  fixes a b :: real
  assumes "0 \<le> a" "a \<le> b - 1" "0 < b" "b \<le> 16777216"
  shows "fl32 (a / b) < 1"
proof -
  have "a / b \<le> 1 - 1 / b"
    using assms by (intro quotient_below_one)
  moreover have "1 / 16777216 \<le> 1 / b"
    using assms by (intro divide_left_mono) simp_all
  ultimately have "a / b \<le> 1 - 1 / 16777216"
    by linarith
  then have "a / b \<le> 1 - 1 / 2 ^ 24"
    by simp
  moreover have "0 \<le> a / b"
    using assms by simp
  ultimately show ?thesis
    by (intro fl32_below_one)
qed

subsection \<open>The index loops\<close>

lemma wrap32_id:
  assumes "- (2 ^ 31) \<le> k" "k < 2 ^ 31"
  shows "wrap32 k = k"
  using assms by (simp add: wrap32_def)

lemma toIndex_in_range:
  assumes "0 < colSegments" "0 \<le> c"
  shows "toIndex colSegments r c = Inr (r * colSegments + (c mod colSegments))"
proof -
  have "(c + colSegments) smod colSegments = (c + colSegments) mod colSegments"
    using assms by (simp add: signed_modulo_int_def sgn_if)
  then show ?thesis
    using assms by (simp add: toIndex_def c_rem_def)
qed

lemma to_uint_bounds:
  assumes "0 \<le> k"
  shows "0 \<le> to_uint k" "to_uint k \<le> k"
  using assms by (simp_all add: to_uint_def zmod_le_nonneg_dividend)

lemma cell_below:
  fixes r n m :: int
  assumes "0 \<le> m" "m < n" "0 \<le> r" "r < R"
  shows "r * n + m < R * n"
proof -
  have "r * n + m < r * n + n" using assms by simp
  also have "\<dots> = (r + 1) * n" by (simp add: algebra_simps)
  also have "\<dots> \<le> R * n"
    using assms by (intro mult_right_mono) auto
  finally show ?thesis .
qed

lemma quadIndices_ok:
  assumes "0 < colSegments" "0 \<le> c" "0 \<le> r"
  shows "\<exists>q. quadIndices colSegments r c = Inr q \<and> length q = 6 \<and>
             (\<forall>i \<in> set q. 0 \<le> i \<and> i < (r + 2) * colSegments)"
proof -
  have m: "0 \<le> k mod colSegments" "k mod colSegments < colSegments" for k
    using assms by simp_all
  have b: "0 \<le> to_uint (r' * colSegments + k mod colSegments) \<and>
           to_uint (r' * colSegments + k mod colSegments) < (r + 2) * colSegments"
    if "0 \<le> r'" "r' < r + 2" for r' k
  proof -
    have nn: "0 \<le> r' * colSegments + k mod colSegments"
      using that assms m by simp
    have "r' * colSegments + k mod colSegments < (r + 2) * colSegments"
      using m that by (intro cell_below) auto
    with to_uint_bounds [OF nn] show ?thesis by linarith
  qed
  show ?thesis
    using assms b [of r c] b [of r "c + 1"] b [of "r + 1" c] b [of "r + 1" "c + 1"]
    by (simp add: quadIndices_def toIndex_in_range)
qed

lemma indexCols_ok:
  assumes "0 \<le> r" "0 \<le> c"
  shows "\<exists>out. indexCols colSegments r c idx = Inr out \<and>
           int (length out) = int (length idx) + 6 * max 0 (colSegments - c) \<and>
           set out \<subseteq> set idx \<union> {i. 0 \<le> i \<and> i < (r + 2) * colSegments}"
  using assms
proof (induction colSegments r c idx rule: indexCols.induct)
  case (1 colSegments r c idx)
  show ?case
  proof (cases "c < colSegments")
    case False
    then show ?thesis by (simp add: indexCols.simps [of colSegments r c idx])
  next
    case True
    with "1.prems" have pos: "0 < colSegments" by simp
    from quadIndices_ok [OF pos "1.prems"(2) "1.prems"(1)]
    obtain q where q: "quadIndices colSegments r c = Inr q" "length q = 6"
      "\<forall>i \<in> set q. 0 \<le> i \<and> i < (r + 2) * colSegments" by blast
    from "1.IH" [OF True q(1)] "1.prems"
    obtain out where out: "indexCols colSegments r (c + 1) (idx @ q) = Inr out"
      "int (length out) = int (length (idx @ q)) + 6 * max 0 (colSegments - (c + 1))"
      "set out \<subseteq> set (idx @ q) \<union> {i. 0 \<le> i \<and> i < (r + 2) * colSegments}"
      by auto
    have "indexCols colSegments r c idx = Inr out"
      using True q(1) out(1) by (simp add: indexCols.simps [of colSegments r c idx])
    moreover have "int (length out) = int (length idx) + 6 * max 0 (colSegments - c)"
      using out(2) q(2) True by simp
    moreover have "set out \<subseteq> set idx \<union> {i. 0 \<le> i \<and> i < (r + 2) * colSegments}"
      using out(3) q(3) by auto
    ultimately show ?thesis by blast
  qed
qed

lemma indexRows_ok:
  assumes "0 \<le> r" "0 \<le> colSegments"
  shows "\<exists>out. indexRows rowRings colSegments r idx = Inr out \<and>
           int (length out) = int (length idx) + 6 * (max 0 (sub32 rowRings 1 - r) * colSegments) \<and>
           set out \<subseteq> set idx \<union> {i. 0 \<le> i \<and> i < (sub32 rowRings 1 + 1) * colSegments}"
  using assms
proof (induction rowRings colSegments r idx rule: indexRows.induct)
  case (1 rowRings colSegments r idx)
  show ?case
  proof (cases "r < sub32 rowRings 1")
    case False
    then show ?thesis by (simp add: indexRows.simps [of rowRings colSegments r idx])
  next
    case True
    from indexCols_ok [OF "1.prems"(1), of 0 colSegments idx]
    obtain row where row: "indexCols colSegments r 0 idx = Inr row"
      "int (length row) = int (length idx) + 6 * max 0 (colSegments - 0)"
      "set row \<subseteq> set idx \<union> {i. 0 \<le> i \<and> i < (r + 2) * colSegments}"
      by auto
    from "1.IH" [OF True row(1)] "1.prems"
    obtain out where out: "indexRows rowRings colSegments (r + 1) row = Inr out"
      "int (length out) = int (length row) + 6 * (max 0 (sub32 rowRings 1 - (r + 1)) * colSegments)"
      "set out \<subseteq> set row \<union> {i. 0 \<le> i \<and> i < (sub32 rowRings 1 + 1) * colSegments}"
      by auto
    have le: "(r + 2) * colSegments \<le> (sub32 rowRings 1 + 1) * colSegments"
      using True "1.prems" by (intro mult_right_mono) auto
    have "indexRows rowRings colSegments r idx = Inr out"
      using True row(1) out(1) by (simp add: indexRows.simps [of rowRings colSegments r idx])
    moreover have "int (length out) =
        int (length idx) + 6 * (max 0 (sub32 rowRings 1 - r) * colSegments)"
      using out(2) row(2) True "1.prems" by (simp add: algebra_simps max_def)
    moreover have "set out \<subseteq> set idx \<union> {i. 0 \<le> i \<and> i < (sub32 rowRings 1 + 1) * colSegments}"
      using out(3) row(3) le by auto
    ultimately show ?thesis by blast
  qed
qed

lemma indexRows_no_columns:
  assumes "colSegments \<le> 0"
  shows "indexRows rowRings colSegments r idx = Inr idx"
  using assms
proof (induction rowRings colSegments r idx rule: indexRows.induct)
  case (1 rowRings colSegments r idx)
  show ?case
  proof (cases "r < sub32 rowRings 1")
    case False
    then show ?thesis by (simp add: indexRows.simps [of rowRings colSegments r idx])
  next
    case True
    have row: "indexCols colSegments r 0 idx = Inr idx"
      using "1.prems" by (simp add: indexCols.simps [of colSegments r 0 idx])
    from "1.IH" [OF True row "1.prems"] True row show ?thesis
      by (simp add: indexRows.simps [of rowRings colSegments r idx])
  qed
qed

lemma indexRows_returns: "\<exists>out. indexRows rowRings colSegments 0 idx = Inr out"
proof (cases "0 \<le> colSegments")
  case True
  from indexRows_ok [OF _ True, of 0 rowRings idx] show ?thesis by auto
next
  case False
  then show ?thesis by (simp add: indexRows_no_columns)
qed


subsection \<open>The sample loops\<close>

text \<open>The vertex buffer is row-major: ring by ring, and segment by segment in a ring.\<close>

lemma vertexCols_eq:
  "vertexCols rowRings colSegments g_time r c v =
     v @ map (sculptureSample rowRings colSegments g_time r) [c..colSegments - 1]"
proof (induction rowRings colSegments g_time r c v rule: vertexCols.induct)
  case (1 rowRings colSegments g_time r c v)
  show ?case
  proof (cases "c < colSegments")
    case False
    then show ?thesis
      by (simp add: vertexCols.simps [of rowRings colSegments g_time r c v])
  next
    case True
    then have "[c..colSegments - 1] = c # [c + 1..colSegments - 1]"
      by (simp add: upto_rec1)
    with True "1.IH" show ?thesis
      by (simp add: vertexCols.simps [of rowRings colSegments g_time r c v])
  qed
qed

lemma vertexRows_eq:
  "vertexRows rowRings colSegments g_time r v =
     v @ concat (map (\<lambda>r. map (sculptureSample rowRings colSegments g_time r) [0..colSegments - 1])
                     [r..rowRings - 1])"
proof (induction rowRings colSegments g_time r v rule: vertexRows.induct)
  case (1 rowRings colSegments g_time r v)
  show ?case
  proof (cases "r < rowRings")
    case False
    then show ?thesis
      by (simp add: vertexRows.simps [of rowRings colSegments g_time r v])
  next
    case True
    then have "[r..rowRings - 1] = r # [r + 1..rowRings - 1]"
      by (simp add: upto_rec1)
    with True "1.IH" show ?thesis
      by (simp add: vertexRows.simps [of rowRings colSegments g_time r v] vertexCols_eq)
  qed
qed

lemma length_rows:
  fixes f :: "int \<Rightarrow> int \<Rightarrow> 'a"
  assumes "0 \<le> n" "0 \<le> m"
  shows "int (length (concat (map (\<lambda>r. map (f r) [0..m - 1]) [0..n - 1]))) = n * m"
  using assms by (simp add: length_concat comp_def sum_list_triv)

lemma makeSculpture_vertexData:
  assumes "makeSculpture can_alloc rowRings colSegments g_time = Inr m"
  shows "vertexData m =
     concat (map (\<lambda>r. map (sculptureSample rowRings colSegments g_time r) [0..colSegments - 1])
                 [0..rowRings - 1])"
  using assms
  by (auto simp add: makeSculpture_def Let_def vertexRows_eq split: sum.splits)

lemma makeSculpture_samples:
  assumes "makeSculpture can_alloc rowRings colSegments g_time = Inr m" "e \<in> set (vertexData m)"
  shows "\<exists>r c. 0 \<le> r \<and> r < rowRings \<and> 0 \<le> c \<and> c < colSegments \<and>
           e = sculptureSample rowRings colSegments g_time r c"
  using assms(2) unfolding makeSculpture_vertexData [OF assms(1)] by force

text \<open>
  Sizes that fit: when \<open>rowRings * colSegments * 8\<close> is below \<open>2^31\<close> and the
  allocator grants the two blocks, neither size wraps, \<^verbatim>\<open>reserve\<close> does not throw,
  and both loops run to their end.
\<close>

lemma makeSculpture_buffers:
  assumes "1 \<le> rowRings" "0 \<le> colSegments" "rowRings < 2 ^ 31"
    and "rowRings * colSegments * 8 < 2 ^ 31"
    and "can_alloc (rowRings * colSegments * 8)" "can_alloc ((rowRings - 1) * colSegments * 6)"
  shows "\<exists>m. makeSculpture can_alloc rowRings colSegments g_time = Inr m \<and>
           int (length (indexData m)) = (rowRings - 1) * colSegments * 6 \<and>
           indexCount m = (rowRings - 1) * colSegments * 6 \<and>
           (\<forall>i \<in> set (indexData m). 0 \<le> i \<and> i < rowRings * colSegments) \<and>
           int (length (vertexData m)) = rowRings * colSegments"
proof -
  have s1: "sub32 rowRings 1 = rowRings - 1"
    using assms by (simp add: sub32_def wrap32_id)
  define P where "P = rowRings * colSegments"
  define Q where "Q = (rowRings - 1) * colSegments"
  have p0: "0 \<le> P" "0 \<le> Q"
    using assms by (simp_all add: P_def Q_def)
  have "Q \<le> P"
    unfolding P_def Q_def using assms by (intro mult_right_mono) simp_all
  moreover have "P * 8 < 2 ^ 31"
    using assms(4) by (simp only: P_def)
  ultimately have "P < 2 ^ 31" "Q < 2 ^ 31" "Q * 6 < 2 ^ 31"
    using p0 by linarith+
  then have small: "rowRings * colSegments * 8 < 2 ^ 31"
    "rowRings * colSegments < 2 ^ 31" "(rowRings - 1) * colSegments < 2 ^ 31"
    "(rowRings - 1) * colSegments * 6 < 2 ^ 31"
    using assms(4) by (simp_all only: P_def Q_def)
  note p0 = p0 [unfolded P_def Q_def]
  have m1: "mul32 rowRings colSegments = rowRings * colSegments"
    unfolding mul32_def using p0(1) small(2) by (intro wrap32_id) linarith+
  have m2: "mul32 (rowRings * colSegments) 8 = rowRings * colSegments * 8"
    unfolding mul32_def using p0(1) small(1) by (intro wrap32_id) linarith+
  have m3: "mul32 (rowRings - 1) colSegments = (rowRings - 1) * colSegments"
    unfolding mul32_def using p0(2) small(3) by (intro wrap32_id) linarith+
  have m4: "mul32 ((rowRings - 1) * colSegments) 6 = (rowRings - 1) * colSegments * 6"
    unfolding mul32_def using p0(2) small(4) by (intro wrap32_id) linarith+
  from indexRows_ok [of 0 colSegments rowRings "[]"] assms
  obtain idx where idx: "indexRows rowRings colSegments 0 [] = Inr idx"
    "int (length idx) = 6 * (max 0 (rowRings - 1) * colSegments)"
    "set idx \<subseteq> {i. 0 \<le> i \<and> i < rowRings * colSegments}"
    by (auto simp add: s1)
  have "\<not> rowRings * colSegments * 8 < 0" "\<not> (rowRings - 1) * colSegments * 6 < 0"
    using p0 by linarith+
  then have r1: "reserve can_alloc (mul32 (mul32 rowRings colSegments) 8) = Inr ()"
    and r2: "reserve can_alloc (mul32 (mul32 (sub32 rowRings 1) colSegments) 6) = Inr ()"
    using assms(5,6) by (simp_all only: s1 m1 m2 m3 m4 reserve_def if_False if_True)
  have len: "int (length idx) = (rowRings - 1) * colSegments * 6"
    using idx(2) assms by (simp add: max_def)
  have cnt: "wrap32 (int (length idx)) = (rowRings - 1) * colSegments * 6"
    unfolding len using p0(2) small(4) by (intro wrap32_id) linarith+
  define m where "m = \<lparr>vertexData = vertexRows rowRings colSegments g_time 0 [],
                        indexData = idx, indexCount = wrap32 (int (length idx))\<rparr>"
  have made: "makeSculpture can_alloc rowRings colSegments g_time = Inr m"
    using idx(1) by (simp add: makeSculpture_def r1 r2 Let_def m_def)
  have "int (length (vertexData m)) = rowRings * colSegments"
    using assms by (simp only: makeSculpture_vertexData [OF made]) (simp add: length_rows)
  with made len cnt idx(3) show ?thesis
    by (auto simp add: m_def)
qed

text \<open>
  The only failures of \<^verbatim>\<open>makeSculpture\<close> are the two exceptions of
  \<^verbatim>\<open>reserve\<close>: a size that is negative after wrap-around, or a block that the
  allocator does not grant. The loops never fail.
\<close>

lemma makeSculpture_fails_iff:
  "makeSculpture can_alloc rowRings colSegments g_time = Inl e \<longleftrightarrow>
     (let n1 = mul32 (mul32 rowRings colSegments) 8;
          n2 = mul32 (mul32 (sub32 rowRings 1) colSegments) 6
      in if n1 < 0 then e = LengthError
         else if \<not> can_alloc n1 then e = BadAlloc
         else if n2 < 0 then e = LengthError
         else \<not> can_alloc n2 \<and> e = BadAlloc)"
proof -
  obtain out where "indexRows rowRings colSegments 0 [] = Inr out"
    using indexRows_returns by blast
  then show ?thesis
    by (auto simp add: makeSculpture_def reserve_def Let_def)
qed

text \<open>
  Inside \<^verbatim>\<open>toIndex\<close>, as the index loop calls it (\<open>0 \<le> r < rowRings\<close>,
  \<open>0 \<le> c \<le> colSegments\<close>), the sum \<^verbatim>\<open>c + colSegments\<close> and the result stay in the
  range of \<^verbatim>\<open>int\<close> when the vertex buffer size does.
\<close>

lemma toIndex_in_int_range:
  assumes "0 < colSegments" "0 \<le> r" "r < rowRings" "0 \<le> c" "c \<le> colSegments"
    and "rowRings * colSegments * 8 < 2 ^ 31"
  shows "c + colSegments < 2 ^ 31"
    and "toIndex colSegments r c = Inr (r * colSegments + c mod colSegments)"
    and "0 \<le> r * colSegments + c mod colSegments"
    and "r * colSegments + c mod colSegments < 2 ^ 31"
proof -
  define P where "P = rowRings * colSegments"
  have "1 * colSegments \<le> P"
    unfolding P_def using assms by (intro mult_right_mono) simp_all
  moreover have P8: "P * 8 < 2 ^ 31"
    using assms(6) by (simp only: P_def)
  ultimately show "c + colSegments < 2 ^ 31"
    using assms(1,5) by linarith
  show "toIndex colSegments r c = Inr (r * colSegments + c mod colSegments)"
    using assms by (simp add: toIndex_in_range)
  have m: "0 \<le> c mod colSegments" "c mod colSegments < colSegments"
    using assms by simp_all
  show "0 \<le> r * colSegments + c mod colSegments"
    using assms m by simp
  have "r * colSegments + c mod colSegments < P"
    unfolding P_def using m assms by (intro cell_below) auto
  moreover have "0 \<le> P"
    unfolding P_def using assms by simp
  ultimately show "r * colSegments + c mod colSegments < 2 ^ 31"
    using P8 by linarith
qed

subsection \<open>Radius and normal of a sample\<close>

lemma sampleRadius_pos: "0 < sampleRadius g_time uParam vParam"
proof -
  define theta where "theta = uParam * (2 * pi)"
  define A where "A = \<bar>cos theta\<bar> powr (2 / (5 / 2))"
  define B where "B = \<bar>sin theta\<bar> powr (2 / (5 / 2))"
  define cx where "cx = A * 1 * (if cos theta \<ge> 0 then 1 else - 1)"
  define cz where "cz = B * (1 / 2) * (if sin theta \<ge> 0 then 1 else - 1)"
  define w where "w = sin (6 * uParam * (2 * pi) - 4 * vParam * (2 * pi) + g_time * (3 / 2))"
  have "cos theta \<noteq> 0 \<or> sin theta \<noteq> 0"
  proof (rule ccontr)
    assume "\<not> (cos theta \<noteq> 0 \<or> sin theta \<noteq> 0)"
    then have "(sin theta)\<^sup>2 + (cos theta)\<^sup>2 = 0" by simp
    then show False by simp
  qed
  then have "0 < A \<or> 0 < B"
    by (auto simp add: A_def B_def)
  moreover have "0 \<le> A" "0 \<le> B"
    by (simp_all add: A_def B_def)
  ultimately have "0 < A * A + B * B / 4"
    by (auto intro: add_pos_nonneg add_nonneg_pos)
  moreover have "cx * cx + cz * cz = A * A + B * B / 4"
    by (simp add: cx_def cz_def)
  ultimately have "0 < cx * cx + cz * cz" by simp
  then have r0: "0 < sqrt (cx * cx + cz * cz)" by simp
  have "- 1 \<le> w" by (simp add: w_def)
  then have "0 < 1 + 1 / 4 * w" by simp
  with r0 have "0 < sqrt (cx * cx + cz * cz) * (1 + 1 / 4 * w)"
    by (rule mult_pos_pos)
  then show ?thesis
    by (simp add: sampleRadius_def Let_def cx_def cz_def A_def B_def w_def theta_def)
qed

lemma tangent_cross_axis:
  "glm_cross \<lparr>vx = - radius * sin theta, vy = 0, vz = radius * cos theta\<rparr> \<lparr>vx = 0, vy = 1, vz = 0\<rparr>
     = \<lparr>vx = - (radius * cos theta), vy = 0, vz = - (radius * sin theta)\<rparr>"
  by (simp add: glm_cross_def)

lemma tangent_cross_dot:
  "glm_dot \<lparr>vx = - (radius * cos theta), vy = 0, vz = - (radius * sin theta)\<rparr>
           \<lparr>vx = - (radius * cos theta), vy = 0, vz = - (radius * sin theta)\<rparr> = radius * radius"
proof -
  let ?n = "\<lparr>vx = - (radius * cos theta), vy = 0, vz = - (radius * sin theta)\<rparr>"
  have "glm_dot ?n ?n =
          radius * radius * (cos theta * cos theta) + radius * radius * (sin theta * sin theta)"
    by (simp add: glm_dot_def)
  also have "\<dots> = radius * radius * (cos theta * cos theta + sin theta * sin theta)"
    by (simp only: distrib_left)
  also have "\<dots> = radius * radius" by simp
  finally show ?thesis .
qed

lemma sampleNormal_nonzero:
  assumes "radius \<noteq> 0"
  shows "sampleNormal radius theta =
           Inr \<lparr>vx = - (radius * cos theta) * (1 / \<bar>radius\<bar>), vy = 0,
                vz = - (radius * sin theta) * (1 / \<bar>radius\<bar>)\<rparr>"
  unfolding sampleNormal_def Let_def tangent_cross_axis glm_normalize_def
    glm_inversesqrt_def tangent_cross_dot
  using assms by (simp add: fdiv_def)

lemma sampleNormal_pos:
  assumes "0 < radius"
  shows "sampleNormal radius theta = Inr \<lparr>vx = - cos theta, vy = 0, vz = - sin theta\<rparr>"
  using assms by (simp add: sampleNormal_nonzero)

lemma sampleNormal_zero: "sampleNormal 0 theta = Inl DivideByZero"
  by (simp add: sampleNormal_def Let_def glm_normalize_def
      glm_inversesqrt_def glm_dot_def glm_cross_def fdiv_def)

lemma sculptureSample_valid:
  assumes "rowRings \<noteq> 1" "colSegments \<noteq> 0"
  shows "sculptureSample rowRings colSegments g_time r c =
     (let vParam = real_of_int r / real_of_int (rowRings - 1);
          uParam = real_of_int c / real_of_int colSegments;
          theta = uParam * (2 * pi);
          radius = sampleRadius g_time uParam vParam
      in Inr \<lparr>position = \<lparr>vx = radius * cos theta, vy = (vParam - 1 / 2) * 3, vz = radius * sin theta\<rparr>,
              normal = \<lparr>vx = - cos theta, vy = 0, vz = - sin theta\<rparr>,
              texcoord_u = uParam, texcoord_v = vParam\<rparr>)"
  using assms
  by (simp add: sculptureSample_def fdiv_def Let_def sampleNormal_pos [OF sampleRadius_pos])

text \<open>The normal stored in a finite sample is the normal computed from its radius.\<close>

lemma sculptureSample_normal:
  assumes "sculptureSample rowRings colSegments g_time r c = Inr s"
  shows "sampleNormal (sampleRadius g_time (texcoord_u s) (texcoord_v s)) (texcoord_u s * (2 * pi))
           = Inr (normal s)"
  using assms
  by (auto simp add: sculptureSample_def Let_def split: sum.splits)

subsection \<open>The aspect ratio\<close>

lemma aspectRatio_cases:
  "aspectRatio w h =
     (if w \<le> 0 then Inr 1
      else if h = 0 then Inl DivideByZero
      else Inr (real_of_int w / real_of_int h))"
  by (simp add: aspectRatio_def fdiv_def)

subsection \<open>The light loop\<close>

lemma animateLight_eq:
  "animateLight g_time i p =
     \<lparr>vx = 18 / 10 * sin (g_time * (7 / 10) + phase i),
      vy = 1 + 4 / 10 * sin (g_time * (13 / 10) + real i),
      vz = 18 / 10 * cos (g_time * (7 / 10) + phase i)\<rparr>"
  by (simp add: animateLight_def Let_def)

lemma animateLights_length: "length (animateLights g_time i lights) = length lights"
proof (induction g_time i lights rule: animateLights.induct)
  case (1 g_time i lights)
  then show ?case by (simp add: animateLights.simps [of g_time i lights])
qed

lemma animateLights_nth:
  assumes "k < length lights"
  shows "animateLights g_time i lights ! k =
           (if i \<le> k \<and> k < 4 then animateLight g_time k (lights ! k) else lights ! k)"
  using assms
proof (induction g_time i lights rule: animateLights.induct)
  case (1 g_time i lights)
  show ?case
  proof (cases "i < 4")
    case False
    then show ?thesis by (simp add: animateLights.simps [of g_time i lights])
  next
    case True
    have "animateLights g_time i lights ! k =
            animateLights g_time (i + 1) (lights[i := animateLight g_time i (lights ! i)]) ! k"
      using True by (simp add: animateLights.simps [of g_time i lights])
    also have "\<dots> = (if i + 1 \<le> k \<and> k < 4
                       then animateLight g_time k (lights[i := animateLight g_time i (lights ! i)] ! k)
                       else lights[i := animateLight g_time i (lights ! i)] ! k)"
      using "1.IH" [OF True] "1.prems" by simp
    also have "\<dots> = (if i \<le> k \<and> k < 4 then animateLight g_time k (lights ! k) else lights ! k)"
      using True "1.prems" by (cases "k = i") (auto simp add: nth_list_update)
    finally show ?thesis .
  qed
qed

lemma quarter_turn:
  fixes a :: real
  shows "sin (a + pi / 2) = cos a" "cos (a + pi / 2) = - sin a"
  by (simp_all add: sin_add cos_add)

section \<open>The claims\<close>

subsection \<open>Topology\<close>

text \<open>
  Claim C1, as the code has it. With \<open>2\<close> rings and \<open>134217728\<close> segments the size
  \<open>rowRings * colSegments * 8\<close> is \<open>2^31\<close>: it wraps to \<open>-2^31\<close>, the first
  \<^verbatim>\<open>reserve\<close> throws, and no index is produced, even on a machine that grants
  every allocation.
\<close>

theorem size_overflow_reserve_throws:
  "makeSculpture (\<lambda>n. True) 2 134217728 0 = Inl LengthError"
  by (simp add: makeSculpture_def reserve_def mul32_def sub32_def wrap32_def)

text \<open>
  Claim C1, amended. For every \<open>rowRings \<ge> 2\<close> and \<open>colSegments \<ge> 3\<close> whose vertex
  buffer size \<open>rowRings * colSegments * 8\<close> fits an \<^verbatim>\<open>int\<close> (at most
  \<open>2147483647\<close>), when the allocator grants the vertex and the index buffer,
  \<^verbatim>\<open>makeSculpture\<close> returns, its index buffer holds exactly
  \<open>(rowRings - 1) * colSegments * 6\<close> indices, and every index is below
  \<open>rowRings * colSegments\<close>, the number of samples in the vertex buffer.
\<close>

theorem topology_index_count_and_range:
  assumes "2 \<le> rowRings" "3 \<le> colSegments" "rowRings * colSegments * 8 \<le> 2147483647"
    and "can_alloc (rowRings * colSegments * 8)" "can_alloc ((rowRings - 1) * colSegments * 6)"
  shows "\<exists>m. makeSculpture can_alloc rowRings colSegments g_time = Inr m \<and>
           int (length (indexData m)) = (rowRings - 1) * colSegments * 6 \<and>
           (\<forall>i \<in> set (indexData m). 0 \<le> i \<and> i < rowRings * colSegments) \<and>
           int (length (vertexData m)) = rowRings * colSegments"
proof -
  define P where "P = rowRings * colSegments"
  have "rowRings * 1 \<le> P"
    unfolding P_def using assms by (intro mult_left_mono) simp_all
  moreover have "P * 8 \<le> 2147483647"
    using assms(3) by (simp only: P_def)
  moreover have "(2147483647::int) < 2 ^ 31" by simp
  ultimately have "rowRings < 2 ^ 31" "P * 8 < 2 ^ 31"
    by linarith+
  then have fits: "rowRings < 2 ^ 31" "rowRings * colSegments * 8 < 2 ^ 31"
    by (simp_all only: P_def)
  from assms have "1 \<le> rowRings" "0 \<le> colSegments" by simp_all
  from makeSculpture_buffers [OF this fits assms(4,5), of g_time] show ?thesis by blast
qed

theorem topology_index_count_and_range_witness:
  "(2::int) \<le> 4 \<and> (3::int) \<le> 4 \<and> (4::int) * 4 * 8 \<le> 2147483647 \<and>
   (4::int) * 4 * 8 \<le> 1000 \<and> ((4::int) - 1) * 4 * 6 \<le> 1000 \<and>
   (\<exists>m. makeSculpture (\<lambda>n. n \<le> 1000) 4 4 0 = Inr m \<and> int (length (indexData m)) = 72 \<and>
        list_all (\<lambda>i. 0 \<le> i \<and> i < 16) (indexData m) \<and> int (length (vertexData m)) = 16)"
  using topology_index_count_and_range [of 4 4 "\<lambda>n. n \<le> 1000" 0] by (simp add: list_all_iff)



text \<open>
  Claim C2, as the code has it. \<^verbatim>\<open>makeSculpture\<close> does not test its grid
  dimensions. Called with one ring it returns three samples that are not finite numbers
  and an empty index buffer; called with two segments it returns twelve indices (on a
  machine that grants the allocations).
\<close>

theorem degenerate_grid_not_rejected:
  "makeSculpture (\<lambda>n. True) 1 3 0 =
     Inr \<lparr>vertexData = [Inl Invalid, Inl Invalid, Inl Invalid], indexData = [], indexCount = 0\<rparr> \<and>
   map_sum id indexData (makeSculpture (\<lambda>n. True) 2 2 0) =
     Inr [0, 2, 1, 1, 2, 3, 1, 3, 0, 0, 3, 2]"
proof -
  have "makeSculpture (\<lambda>n. True) 1 3 0 =
     Inr \<lparr>vertexData = [Inl Invalid, Inl Invalid, Inl Invalid], indexData = [], indexCount = 0\<rparr>"
    by (simp add: makeSculpture_def reserve_def mul32_def sub32_def wrap32_def
        vertexRows.simps vertexCols.simps indexRows.simps sculptureSample_def fdiv_def)
  moreover have "map_sum id indexData (makeSculpture (\<lambda>n. True) 2 2 0) =
      Inr [0, 2, 1, 1, 2, 3, 1, 3, 0, 0, 3, 2]"
    by (simp add: makeSculpture_def reserve_def mul32_def sub32_def wrap32_def
        indexRows.simps indexCols.simps quadIndices_def
        toIndex_def c_rem_def to_uint_def signed_modulo_int_def Let_def)
  ultimately show ?thesis by simp
qed

text \<open>
  Claim C2, amended. \<^verbatim>\<open>makeSculpture\<close> has no test of the grid dimensions. For a
  degenerate grid (\<open>rowRings < 2\<close> or \<open>colSegments < 3\<close>) with \<open>rowRings \<ge> 1\<close>,
  \<open>colSegments \<ge> 0\<close> and a vertex buffer size \<open>rowRings * colSegments * 8\<close> that fits an
  \<^verbatim>\<open>int\<close>, when the allocator grants the two buffers, it reports no failure: it
  returns an index buffer of
  \<open>(rowRings - 1) * colSegments * 6\<close> indices, each below \<open>rowRings * colSegments\<close>.
\<close>

theorem degenerate_grid_returns_buffers:
  assumes "rowRings < 2 \<or> colSegments < 3" "1 \<le> rowRings" "0 \<le> colSegments"
    and "rowRings \<le> 2147483647" "rowRings * colSegments * 8 \<le> 2147483647"
    and "can_alloc (rowRings * colSegments * 8)" "can_alloc ((rowRings - 1) * colSegments * 6)"
  shows "\<exists>m. makeSculpture can_alloc rowRings colSegments g_time = Inr m \<and>
           int (length (indexData m)) = (rowRings - 1) * colSegments * 6 \<and>
           (\<forall>i \<in> set (indexData m). 0 \<le> i \<and> i < rowRings * colSegments)"
proof -
  have "(2147483647::int) < 2 ^ 31" by simp
  with assms(4,5) have fits: "rowRings < 2 ^ 31" "rowRings * colSegments * 8 < 2 ^ 31"
    by linarith+
  from makeSculpture_buffers [OF assms(2) assms(3) fits assms(6,7), of g_time]
  show ?thesis by blast
qed

theorem degenerate_grid_returns_buffers_witness:
  "((2::int) < 2 \<or> (2::int) < 3) \<and> (1::int) \<le> 2 \<and> (0::int) \<le> 2 \<and>
   (2::int) \<le> 2147483647 \<and> (2::int) * 2 * 8 \<le> 2147483647 \<and>
   (2::int) * 2 * 8 \<le> 1000 \<and> ((2::int) - 1) * 2 * 6 \<le> 1000 \<and>
   (\<exists>m. makeSculpture (\<lambda>n. n \<le> 1000) 2 2 0 = Inr m \<and> int (length (indexData m)) = 12 \<and>
        list_all (\<lambda>i. 0 \<le> i \<and> i < 4) (indexData m))"
  using degenerate_grid_returns_buffers [of 2 2 "\<lambda>n. n \<le> 1000" 0] by (simp add: list_all_iff)

subsection \<open>Samples\<close>



text \<open>
  Claim C8. For every ring, segment and time of a grid with \<open>rowRings \<ge> 2\<close> and
  \<open>colSegments \<ge> 1\<close>, the computed radius is not zero and the normal stored in the sample
  has length \<open>1\<close>.
\<close>

theorem sample_normal_unit_length:
  assumes "2 \<le> rowRings" "1 \<le> colSegments"
  shows "\<exists>s. sculptureSample rowRings colSegments g_time r c = Inr s \<and>
           sampleRadius g_time (texcoord_u s) (texcoord_v s) \<noteq> 0 \<and>
           glm_length (normal s) = 1"
proof -
  from assms have ne: "rowRings \<noteq> 1" "colSegments \<noteq> 0" by simp_all
  have unit: "glm_length \<lparr>vx = - cos theta, vy = 0, vz = - sin theta\<rparr> = 1" for theta :: real
    by (simp add: glm_length_def glm_dot_def)
  have "sampleRadius g_time u v \<noteq> 0" for u v
    using sampleRadius_pos [of g_time u v] by simp
  with unit show ?thesis
    by (simp add: sculptureSample_valid [OF ne] Let_def)
qed

theorem sample_normal_unit_length_witness:
  "(2::int) \<le> 2 \<and> (1::int) \<le> 4 \<and>
   (\<exists>s. sculptureSample 2 4 0 0 1 = Inr s \<and> normal s = \<lparr>vx = 0, vy = 0, vz = - 1\<rparr> \<and>
        glm_length (normal s) = 1)"
proof -
  from sample_normal_unit_length [of 2 4 0 0 1]
  obtain s where s: "sculptureSample 2 4 0 0 1 = Inr s" "glm_length (normal s) = 1"
    by auto
  have "normal s = \<lparr>vx = 0, vy = 0, vz = - 1\<rparr>"
    using s(1) by (auto simp add: sculptureSample_valid Let_def)
  with s show ?thesis by auto
qed

text \<open>
  Claim C9, as the code has it. The last ring has \<open>vParam = 1\<close>: with two rings and
  three segments, the sample of ring \<open>1\<close> and segment \<open>0\<close> at time \<open>0\<close> has texture
  coordinates \<open>(0, 1)\<close>.
\<close>

theorem last_ring_texcoord_v_is_one:
  "sculptureSample 2 3 0 1 0 =
     Inr \<lparr>position = \<lparr>vx = 1, vy = 3 / 2, vz = 0\<rparr>, normal = \<lparr>vx = - 1, vy = 0, vz = 0\<rparr>,
          texcoord_u = 0, texcoord_v = 1\<rparr>"
  by (simp add: sculptureSample_valid Let_def sampleRadius_def)

text \<open>
  Claim C9, amended. For \<open>rowRings\<close> from \<open>2\<close> to \<open>16777217\<close> and \<open>colSegments\<close> up to
  \<open>16777216\<close> (the integers that binary32 holds exactly), every ring \<open>r\<close> in
  \<open>[0, rowRings)\<close> and every segment \<open>c\<close> in \<open>[0, colSegments)\<close>: the stored
  \<open>u\<close> is \<open>c / colSegments\<close> rounded to binary32 and lies in \<open>[0, 1)\<close>, the stored \<open>v\<close> is
  \<open>r / (rowRings - 1)\<close> rounded to binary32 and lies in the closed range \<open>[0, 1]\<close>, and
  \<open>v = 1\<close> exactly on the last ring.
\<close>

theorem texcoord_ranges:
  assumes "2 \<le> rowRings" "rowRings \<le> 16777217" "colSegments \<le> 16777216"
    and "0 \<le> r" "r < rowRings" "0 \<le> c" "c < colSegments"
  shows "\<exists>s u v. sculptureSample rowRings colSegments g_time r c = Inr s \<and>
           uParam32 colSegments c = Inr u \<and> vParam32 rowRings r = Inr v \<and>
           u = fl32 (texcoord_u s) \<and> v = fl32 (texcoord_v s) \<and>
           0 \<le> u \<and> u < 1 \<and> 0 \<le> v \<and> v \<le> 1 \<and> (v = 1) = (r = rowRings - 1)"
proof -
  from assms have ne: "rowRings \<noteq> 1" "colSegments \<noteq> 0" by simp_all
  define x where "x = real_of_int c / real_of_int colSegments"
  define y where "y = real_of_int r / real_of_int (rowRings - 1)"
  obtain s where s: "sculptureSample rowRings colSegments g_time r c = Inr s"
    "texcoord_u s = x" "texcoord_v s = y"
    by (simp add: sculptureSample_valid [OF ne] Let_def x_def y_def)
  have conv: "float_of_int c = real_of_int c" "float_of_int colSegments = real_of_int colSegments"
    "float_of_int r = real_of_int r" "float_of_int (rowRings - 1) = real_of_int (rowRings - 1)"
    using assms by (simp_all add: float_of_int_exact)
  have u: "uParam32 colSegments c = Inr (fl32 x)"
    using ne by (simp add: uParam32_def fdiv32_def fdiv_def conv x_def)
  have v: "vParam32 rowRings r = Inr (fl32 y)"
    using ne by (simp add: vParam32_def fdiv32_def fdiv_def conv y_def)
  have x0: "0 \<le> x"
    using assms by (simp add: x_def)
  have "real_of_int c \<le> real_of_int colSegments - 1"
    using assms(7) by (metis of_int_1 of_int_diff of_int_le_iff zle_diff1_eq)
  moreover have "0 \<le> real_of_int c" "0 < real_of_int colSegments"
    "real_of_int colSegments \<le> 16777216"
    using assms by simp_all
  ultimately have "fl32 x < 1"
    unfolding x_def by (intro quotient_rounds_below_one)
  with x0 have ux: "0 \<le> fl32 x" "fl32 x < 1"
    by (simp_all add: fl32_nonneg)
  have y0: "0 \<le> y"
    using assms by (simp add: y_def)
  have vy: "fl32 y \<le> 1 \<and> (fl32 y = 1) = (r = rowRings - 1)"
  proof (cases "r = rowRings - 1")
    case True
    then have "y = 1" using ne by (simp add: y_def)
    with True show ?thesis by (simp add: fl32_one)
  next
    case False
    with assms have lt: "r < rowRings - 1" by simp
    then have "real_of_int r \<le> real_of_int (rowRings - 1) - 1"
      by (metis of_int_1 of_int_diff of_int_le_iff zle_diff1_eq)
    moreover have "0 \<le> real_of_int r" "0 < real_of_int (rowRings - 1)"
      "real_of_int (rowRings - 1) \<le> 16777216"
      using assms by simp_all
    ultimately have "fl32 y < 1"
      unfolding y_def by (intro quotient_rounds_below_one)
    with False show ?thesis by simp
  qed
  from s u v ux vy fl32_nonneg [OF y0] show ?thesis
    by (intro exI [of _ s] exI [of _ "fl32 x"] exI [of _ "fl32 y"]) simp
qed

theorem texcoord_ranges_witness:
  "(2::int) \<le> 3 \<and> (3::int) \<le> 16777217 \<and> (4::int) \<le> 16777216 \<and>
   (0::int) \<le> 2 \<and> (2::int) < 3 \<and> (0::int) \<le> 3 \<and> (3::int) < 4 \<and>
   (\<exists>s u v. sculptureSample 3 4 0 2 3 = Inr s \<and> uParam32 4 3 = Inr u \<and> vParam32 3 2 = Inr v \<and>
        0 \<le> u \<and> u < 1 \<and> v = 1)"
  using texcoord_ranges [of 3 4 2 3 0] by auto

text \<open>
  Claim C10. For \<open>rowRings \<ge> 2\<close> and \<open>colSegments \<ge> 1\<close>, the normal of every sample
  has y-component \<open>0\<close> and is \<open>(- cos theta, 0, - sin theta)\<close> with
  \<open>theta = c / colSegments * 2 pi\<close>; the horizontal part of the position is the normal
  scaled by \<open>- radius\<close> with \<open>radius > 0\<close>, so the normal points towards the vertical axis.
\<close>

theorem normal_horizontal_inward:
  assumes "2 \<le> rowRings" "1 \<le> colSegments"
  shows "\<exists>s. sculptureSample rowRings colSegments g_time r c = Inr s \<and>
           vy (normal s) = 0 \<and>
           normal s = \<lparr>vx = - cos (real_of_int c / real_of_int colSegments * (2 * pi)), vy = 0,
                       vz = - sin (real_of_int c / real_of_int colSegments * (2 * pi))\<rparr> \<and>
           0 < sampleRadius g_time (real_of_int c / real_of_int colSegments)
                 (real_of_int r / real_of_int (rowRings - 1)) \<and>
           vx (position s) =
             - sampleRadius g_time (real_of_int c / real_of_int colSegments)
                 (real_of_int r / real_of_int (rowRings - 1)) * vx (normal s) \<and>
           vz (position s) =
             - sampleRadius g_time (real_of_int c / real_of_int colSegments)
                 (real_of_int r / real_of_int (rowRings - 1)) * vz (normal s)"
proof -
  from assms have ne: "rowRings \<noteq> 1" "colSegments \<noteq> 0" by simp_all
  show ?thesis
    by (simp add: sculptureSample_valid [OF ne] Let_def sampleRadius_pos)
qed

theorem normal_horizontal_inward_witness:
  "(2::int) \<le> 2 \<and> (1::int) \<le> 4 \<and>
   (\<exists>s. sculptureSample 2 4 0 0 1 = Inr s \<and> normal s = \<lparr>vx = 0, vy = 0, vz = - 1\<rparr> \<and>
        vx (position s) = 0 \<and> 0 < vz (position s))"
  using normal_horizontal_inward [of 2 4 0 0 1] by auto

subsection \<open>The render loop\<close>

text \<open>
  Claim C4, at the input where the code departs from it. The guard of the aspect ratio
  tests the width: with a framebuffer of width \<open>1280\<close> and height \<open>0\<close> the code divides
  by zero and the aspect ratio is not \<open>1\<close>. Only a width of \<open>0\<close> or less gives \<open>1\<close>.
\<close>

theorem aspect_zero_height_divides:
  "aspectRatio 1280 0 = Inl DivideByZero \<and> aspectRatio 0 0 = Inr 1"
  by (simp add: aspectRatio_def fdiv_def)

text \<open>
  Claim C5. After the animation loop at time \<open>g_time\<close>, light \<open>i\<close> (for \<open>i < 4\<close>) is at
  \<open>x = 1.8 sin (0.7 g_time + i pi / 2)\<close>, \<open>y = 1.0 + 0.4 sin (1.3 g_time + i)\<close>,
  \<open>z = 1.8 cos (0.7 g_time + i pi / 2)\<close>; at time \<open>0\<close>, light \<open>0\<close> is at
  \<open>(0, 1.0, 1.8)\<close>.
\<close>

theorem light_positions:
  assumes "i < 4" "length lights = 4"
  shows "animateLights g_time 0 lights ! i =
           \<lparr>vx = 18 / 10 * sin (7 / 10 * g_time + real i * (pi / 2)),
            vy = 1 + 4 / 10 * sin (13 / 10 * g_time + real i),
            vz = 18 / 10 * cos (7 / 10 * g_time + real i * (pi / 2))\<rparr>
         \<and> animateLights 0 0 lights ! 0 = \<lparr>vx = 0, vy = 1, vz = 18 / 10\<rparr>"
  using assms by (simp add: animateLights_nth animateLight_eq phase_def mult.commute)

theorem light_positions_witness:
  "(2::nat) < 4 \<and> length pointLights = 4 \<and>
   animateLights 0 0 pointLights ! 2 = \<lparr>vx = 0, vy = 1 + 4 / 10 * sin 2, vz = - (18 / 10)\<rparr> \<and>
   animateLights 0 0 pointLights ! 0 = \<lparr>vx = 0, vy = 1, vz = 18 / 10\<rparr>"
  using light_positions [of 2 pointLights 0] by (simp add: pointLights_def)

text \<open>
  Claim C6, as the code has it. In binary32 arithmetic the phase arguments of two
  consecutive lights do not differ by exactly \<open>pi / 2\<close>: at \<open>g_time = 100000000\<close> the
  product \<^verbatim>\<open>g_time * 0.7f\<close> is \<open>70000000\<close>, where binary32 numbers are \<open>8\<close> apart,
  and adding the phase of light \<open>1\<close> leaves it unchanged. Lights \<open>0\<close> and \<open>1\<close> get the
  same argument.
\<close>

theorem phase_step_absorbed:
  "lightArg32 100000000 0 = 70000000 \<and> lightArg32 100000000 1 = 70000000 \<and>
   lightArg32 100000000 1 - lightArg32 100000000 0 \<noteq> pi / 2"
proof -
  have c07: "float_0_7 = 11744051 / 16777216"
    unfolding float_0_7_def by (subst fl32_eval [of "- 1"]) (simp_all add: round_even_def)
  have hp: "half_pi_f = 13176795 / 8388608"
    unfolding half_pi_f_def by (subst fl32_eval [of 0]) (simp_all add: round_even_def)
  have prod: "fl32 (100000000 * float_0_7) = 70000000"
    unfolding c07 by (subst fl32_eval [of 26]) (simp_all add: round_even_def)
  have one: "float_of_int 1 = 1"
    using float_of_int_exact [of 1] by simp
  have p0: "phase32 0 = 0"
    by (simp add: phase32_def float_of_int_def fl32_def)
  have "fl32 (13176795 / 8388608) = 13176795 / 8388608"
    by (subst fl32_eval [of 0]) (simp_all add: round_even_def)
  then have p1: "phase32 1 = 13176795 / 8388608"
    using one by (simp add: phase32_def hp)
  have a0: "lightArg32 100000000 0 = 70000000"
    unfolding lightArg32_def prod p0 by (subst fl32_eval [of 26]) (simp_all add: round_even_def)
  have a1: "lightArg32 100000000 1 = 70000000"
    unfolding lightArg32_def prod p1 by (subst fl32_eval [of 26]) (simp_all add: round_even_def)
  have "pi / 2 \<noteq> 0" by simp
  with a0 a1 show ?thesis by simp
qed

text \<open>
  Claim C6, amended. As identities of the animator's formulas in exact real arithmetic,
  at every time the horizontal phase arguments of lights \<open>i\<close> and \<open>i + 1\<close>
  differ by \<open>pi / 2\<close>, so light \<open>i + 1\<close> is light \<open>i\<close> turned by a quarter of the circle,
  and every light satisfies \<open>x\<^sup>2 + z\<^sup>2 = 1.8\<^sup>2\<close>. The binary32 results are rounded and
  need not satisfy them exactly.
\<close>

theorem light_circle:
  assumes "i < 4" "length lights = 4"
  shows "(g_time * (7 / 10) + phase (i + 1)) - (g_time * (7 / 10) + phase i) = pi / 2
       \<and> (vx (animateLights g_time 0 lights ! i))\<^sup>2 + (vz (animateLights g_time 0 lights ! i))\<^sup>2
           = (18 / 10)\<^sup>2
       \<and> (i + 1 < 4 \<longrightarrow>
            vx (animateLights g_time 0 lights ! (i + 1)) = vz (animateLights g_time 0 lights ! i) \<and>
            vz (animateLights g_time 0 lights ! (i + 1)) = - vx (animateLights g_time 0 lights ! i))"
proof -
  define a where "a = g_time * (7 / 10) + phase i"
  have ph: "phase (i + 1) = phase i + pi / 2"
    by (simp add: phase_def algebra_simps)
  have arg: "g_time * (7 / 10) + phase (i + 1) = a + pi / 2"
    by (simp only: ph a_def add.assoc)
  have p: "animateLights g_time 0 lights ! i =
             \<lparr>vx = 18 / 10 * sin a, vy = 1 + 4 / 10 * sin (g_time * (13 / 10) + real i),
              vz = 18 / 10 * cos a\<rparr>"
    using assms by (simp add: animateLights_nth animateLight_eq a_def)
  have "(18 / 10 * sin a)\<^sup>2 + (18 / 10 * cos a)\<^sup>2 = (18 / 10)\<^sup>2 * ((sin a)\<^sup>2 + (cos a)\<^sup>2)"
    by (simp only: power_mult_distrib distrib_left)
  then have circle: "(18 / 10 * sin a)\<^sup>2 + (18 / 10 * cos a)\<^sup>2 = (18 / 10)\<^sup>2"
    by (simp only: sin_cos_squared_add mult_1_right)
  have next_light:
    "vx (animateLights g_time 0 lights ! (i + 1)) = vz (animateLights g_time 0 lights ! i) \<and>
     vz (animateLights g_time 0 lights ! (i + 1)) = - vx (animateLights g_time 0 lights ! i)"
    if "i + 1 < 4"
  proof -
    have "animateLights g_time 0 lights ! (i + 1) = animateLight g_time (i + 1) (lights ! (i + 1))"
      using that assms by (simp add: animateLights_nth)
    then show ?thesis
      by (simp only: p animateLight_eq arg quarter_turn vec3.simps) simp
  qed
  have diff: "(g_time * (7 / 10) + phase (i + 1)) - (g_time * (7 / 10) + phase i) = pi / 2"
    by (simp only: arg) (simp add: a_def)
  have "(vx (animateLights g_time 0 lights ! i))\<^sup>2 + (vz (animateLights g_time 0 lights ! i))\<^sup>2
           = (18 / 10)\<^sup>2"
    by (simp only: p vec3.simps circle)
  with diff next_light show ?thesis by blast
qed

theorem light_circle_witness:
  "(0::nat) < 4 \<and> length pointLights = 4 \<and> (0::nat) + 1 < 4 \<and>
   (vx (animateLights 0 0 pointLights ! 0))\<^sup>2 + (vz (animateLights 0 0 pointLights ! 0))\<^sup>2
     = (18 / 10)\<^sup>2 \<and>
   vx (animateLights 0 0 pointLights ! (0 + 1)) = vz (animateLights 0 0 pointLights ! 0)"
  using light_circle [of 0 pointLights 0] by (simp add: pointLights_def)

end
